theory Spec2Isabelle
  imports Main "HOL-Library.Word"
begin

section \<open>The ARF rate manager of arf-wifi-manager.cc\<close>

text \<open>
  The per-station counters of \<^verbatim>\<open>ArfWifiRemoteStation\<close> are \<^verbatim>\<open>uint32_t\<close>: they are
  32-bit words here, so \<open>+ 1\<close> and \<open>- 1\<close> wrap as in the source.
  \<^verbatim>\<open>m_operationalRateSet.size ()\<close> is a \<^verbatim>\<open>size_t\<close>; it is taken as a 64-bit word (LP64),
  and the comparison \<^verbatim>\<open>station->m_rate < size () - 1\<close> converts \<^verbatim>\<open>m_rate\<close> to that width.
\<close>

type_synonym u32 = "32 word"
type_synonym size_t = "64 word"

datatype error = AssertFailed | FatalError string

text \<open>The members of \<^verbatim>\<open>ArfWifiManager\<close> that this file reads or writes.\<close>

record manager =
  m_timerThreshold :: u32
  m_successThreshold :: u32
  m_currentRate :: "64 word"

text \<open>\<^verbatim>\<open>struct ArfWifiRemoteStation\<close>, fields in the order of the source.\<close>

record station =
  m_timer :: u32
  m_success :: u32
  m_failed :: u32
  m_recovery :: bool
  m_retry :: u32
  m_timerTimeout :: u32
  m_successThreshold :: u32
  m_rate :: u32

definition DoCreateStation :: "manager \<Rightarrow> station" where
  "DoCreateStation mgr =
     \<lparr> m_timer = 0,
       m_success = 0,
       m_failed = 0,
       m_recovery = False,
       m_retry = 0,
       m_timerTimeout = manager.m_timerThreshold mgr,
       m_successThreshold = manager.m_successThreshold mgr,
       m_rate = 0 \<rparr>"

text \<open>
  \<^verbatim>\<open>NS_ASSERT (c)\<close> terminates the program when \<open>c\<close> is false in a build with assertions
  and is empty otherwise. The macro comes from \<^verbatim>\<open>ns3/assert.h\<close>, so whether assertions are
  compiled in is the parameter \<open>asserts\<close>.
\<close>

definition NS_ASSERT :: "bool \<Rightarrow> bool \<Rightarrow> bool" where
  "NS_ASSERT asserts c = (if asserts then c else True)"

text \<open>The two places where the source has \<^verbatim>\<open>if (m_rate != 0) m_rate--\<close>.\<close>

definition fallback :: "station \<Rightarrow> station" where
  "fallback st = (if m_rate st \<noteq> 0 then st\<lparr>m_rate := m_rate st - 1\<rparr> else st)"

definition DoReportDataFailed :: "bool \<Rightarrow> station \<Rightarrow> error + station" where
  "DoReportDataFailed asserts st0 =
     (let st = st0\<lparr> m_timer := m_timer st0 + 1,
                    m_failed := m_failed st0 + 1,
                    m_retry := m_retry st0 + 1,
                    m_success := 0 \<rparr>
      in if m_recovery st then
           if \<not> NS_ASSERT asserts (m_retry st \<ge> 1) then Inl AssertFailed
           else
             let st' = (if m_retry st = 1 then fallback st else st)
             in Inr (st'\<lparr>m_timer := 0\<rparr>)
         else
           if \<not> NS_ASSERT asserts (m_retry st \<ge> 1) then Inl AssertFailed
           else
             let st' = (if (m_retry st - 1) mod 2 = 1 then fallback st else st)
             in Inr (if m_retry st' \<ge> 2 then st'\<lparr>m_timer := 0\<rparr> else st'))"

text \<open>
  \<open>nrates\<close> is \<^verbatim>\<open>station->m_state->m_operationalRateSet.size ()\<close>; the rate set belongs to
  the base class. The SNR and mode arguments are only logged.
\<close>

definition DoReportDataOk :: "manager \<Rightarrow> size_t \<Rightarrow> station \<Rightarrow> station" where
  "DoReportDataOk mgr nrates st0 =
     (let st = st0\<lparr> m_timer := m_timer st0 + 1,
                    m_success := m_success st0 + 1,
                    m_failed := 0,
                    m_recovery := False,
                    m_retry := 0 \<rparr>
      in if (m_success st = manager.m_successThreshold mgr
             \<or> m_timer st = manager.m_timerThreshold mgr)
            \<and> (ucast (m_rate st) :: size_t) < nrates - 1
         then st\<lparr> m_rate := m_rate st + 1,
                  m_timer := 0,
                  m_success := 0,
                  m_recovery := True \<rparr>
         else st)"

text \<open>The three setters; \<^verbatim>\<open>NS_FATAL_ERROR\<close> terminates the program in every build.\<close>

definition SetHtSupported :: "manager \<Rightarrow> bool \<Rightarrow> error + manager" where
  "SetHtSupported mgr enable =
     (if enable
      then Inl (FatalError ''WifiRemoteStationManager selected does not support HT rates'')
      else Inr mgr)"

definition SetVhtSupported :: "manager \<Rightarrow> bool \<Rightarrow> error + manager" where
  "SetVhtSupported mgr enable =
     (if enable
      then Inl (FatalError ''WifiRemoteStationManager selected does not support VHT rates'')
      else Inr mgr)"

definition SetHeSupported :: "manager \<Rightarrow> bool \<Rightarrow> error + manager" where
  "SetHeSupported mgr enable =
     (if enable
      then Inl (FatalError ''WifiRemoteStationManager selected does not support HE rates'')
      else Inr mgr)"

subsection \<open>Sequences of reports\<close>

datatype event = DataOk | DataFailed

fun report :: "bool \<Rightarrow> manager \<Rightarrow> size_t \<Rightarrow> event \<Rightarrow> station \<Rightarrow> error + station" where
  "report asserts mgr nrates DataOk st = Inr (DoReportDataOk mgr nrates st)"
| "report asserts mgr nrates DataFailed st = DoReportDataFailed asserts st"

fun reports :: "bool \<Rightarrow> manager \<Rightarrow> size_t \<Rightarrow> event list \<Rightarrow> station \<Rightarrow> error + station" where
  "reports asserts mgr nrates [] st = Inr st"
| "reports asserts mgr nrates (e # es) st =
     (case report asserts mgr nrates e st of
        Inl err \<Rightarrow> Inl err
      | Inr st' \<Rightarrow> reports asserts mgr nrates es st')"

text \<open>The attribute defaults of \<^verbatim>\<open>GetTypeId\<close> and the constructor's \<^verbatim>\<open>m_currentRate (0)\<close>.\<close>

definition default_manager :: manager where
  "default_manager = \<lparr> m_timerThreshold = 15, m_successThreshold = 10, m_currentRate = 0 \<rparr>"

subsection \<open>Stations used as concrete inputs\<close>

text \<open>
  A station of the default manager that has just been raised from rate 2 to rate 3
  (thirty successes in a row on a table of four rates or more).
\<close>

definition probing_station :: station where
  "probing_station =
     \<lparr> m_timer = 0, m_success = 0, m_failed = 0, m_recovery = True, m_retry = 0,
       m_timerTimeout = 15, m_successThreshold = 10, m_rate = 3 \<rparr>"

text \<open>What \<open>DoReportDataFailed\<close> makes of \<open>probing_station\<close>.\<close>

definition fallen_back_station :: station where
  "fallen_back_station =
     \<lparr> m_timer = 0, m_success = 0, m_failed = 1, m_recovery = True, m_retry = 1,
       m_timerTimeout = 15, m_successThreshold = 10, m_rate = 2 \<rparr>"

text \<open>What a second \<open>DoReportDataFailed\<close> makes of \<open>fallen_back_station\<close>.\<close>

definition twice_failed_station :: station where
  "twice_failed_station =
     \<lparr> m_timer = 0, m_success = 0, m_failed = 2, m_recovery = True, m_retry = 2,
       m_timerTimeout = 15, m_successThreshold = 10, m_rate = 2 \<rparr>"

text \<open>A station at rate 2 outside recovery, with no failure pending.\<close>

definition steady_station :: station where
  "steady_station =
     \<lparr> m_timer = 3, m_success = 3, m_failed = 0, m_recovery = False, m_retry = 0,
       m_timerTimeout = 15, m_successThreshold = 10, m_rate = 2 \<rparr>"

text \<open>What \<open>DoReportDataFailed\<close> makes of \<open>steady_station\<close>.\<close>

definition once_failed_station :: station where
  "once_failed_station =
     \<lparr> m_timer = 4, m_success = 0, m_failed = 1, m_recovery = False, m_retry = 1,
       m_timerTimeout = 15, m_successThreshold = 10, m_rate = 2 \<rparr>"

text \<open>
  A station of the default manager outside recovery whose \<open>m_timer\<close> has reached the
  timer threshold on a failure report (nine successes, a failure, four successes, a
  failure).
\<close>

definition overdue_station :: station where
  "overdue_station =
     \<lparr> m_timer = 15, m_success = 0, m_failed = 1, m_recovery = False, m_retry = 1,
       m_timerTimeout = 15, m_successThreshold = 10, m_rate = 0 \<rparr>"

text \<open>A station of the default manager after five successes.\<close>

definition five_successes_station :: station where
  "five_successes_station =
     \<lparr> m_timer = 5, m_success = 5, m_failed = 0, m_recovery = False, m_retry = 0,
       m_timerTimeout = 15, m_successThreshold = 10, m_rate = 0 \<rparr>"

text \<open>What ten more successes make of \<open>five_successes_station\<close> on a table of four rates.\<close>

definition fifteen_successes_station :: station where
  "fifteen_successes_station =
     \<lparr> m_timer = 5, m_success = 5, m_failed = 0, m_recovery = False, m_retry = 0,
       m_timerTimeout = 15, m_successThreshold = 10, m_rate = 1 \<rparr>"

text \<open>The default manager after its \<^verbatim>\<open>SuccessThreshold\<close> attribute has been set to 1.\<close>

definition reconfigured_manager :: manager where
  "reconfigured_manager =
     \<lparr> m_timerThreshold = 15, m_successThreshold = 1, m_currentRate = 0 \<rparr>"

subsection \<open>The decision with the station's own thresholds\<close>

text \<open>
  This definition is not in the source. It is \<open>DoReportDataOk\<close> with the two comparisons
  made against \<^verbatim>\<open>station->m_successThreshold\<close> and \<^verbatim>\<open>station->m_timerTimeout\<close>, the copies
  that \<open>DoCreateStation\<close> stores, as the specification describes the decision; it is
  compared with \<open>DoReportDataOk\<close> below.
\<close>

definition DoReportDataOk_station_thresholds :: "size_t \<Rightarrow> station \<Rightarrow> station" where
  "DoReportDataOk_station_thresholds nrates st0 =
     (let st = st0\<lparr> m_timer := m_timer st0 + 1,
                    m_success := m_success st0 + 1,
                    m_failed := 0,
                    m_recovery := False,
                    m_retry := 0 \<rparr>
      in if (m_success st = m_successThreshold st \<or> m_timer st = m_timerTimeout st)
            \<and> (ucast (m_rate st) :: size_t) < nrates - 1
         then st\<lparr> m_rate := m_rate st + 1,
                  m_timer := 0,
                  m_success := 0,
                  m_recovery := True \<rparr>
         else st)"

section \<open>Word arithmetic of the counters\<close>

lemma unat_u32_bound: "unat (r :: u32) < 4294967296"
proof -
  have "unat r < 2 ^ LENGTH(32)" by (rule unsigned_less)
  then show ?thesis by simp
qed

lemma unat_ucast_rate: "unat (ucast (r :: u32) :: size_t) = unat r"
  using unat_u32_bound [of r] by (simp add: unsigned_ucast_eq take_bit_nat_eq_self)

lemma rate_lt_iff: "((ucast (r :: u32) :: size_t) < n) = (unat r < unat n)"
  by (simp add: word_less_nat_alt unat_ucast_rate)

lemma unat_max_u32: "unat (- 1 :: u32) = 4294967295"
  by (simp add: unsigned_minus_1_eq_mask mask_eq_exp_minus_1)

lemma incr_zero_iff: "(r :: u32) + 1 = 0 \<longleftrightarrow> r = - 1"
  by (simp add: add_eq_0_iff2)

lemma unat_incr_no_wrap: "(r :: u32) \<noteq> - 1 \<Longrightarrow> unat (r + 1) = unat r + 1"
  by (metis add.commute unatSuc Suc_eq_plus1 incr_zero_iff)

lemma unat_incr:
  fixes r :: u32
  assumes "unat r + 1 < 4294967296"
  shows "unat (r + 1) = unat r + 1"
  using assms by (simp add: unat_word_ariths)

lemma unat_decr:
  fixes r :: u32
  assumes "r \<noteq> 0"
  shows "unat (r - 1) + 1 = unat r"
  using assms by (simp add: unat_minus_one unat_gt_0)

lemma rate_headroom_iff:
  fixes n :: size_t and r :: u32
  assumes "n \<noteq> 0"
  shows "((ucast r :: size_t) < n - 1) = (unat r + 1 < unat n)"
  using assms by (auto simp: rate_lt_iff unat_minus_one unat_gt_0)

lemma one_le_incr_iff: "(1 \<le> (r :: u32) + 1) = (r \<noteq> - 1)"
  by (metis add.commute add_eq_0_iff2 word_le_0_iff not_less word_less_1 linorder_not_le)

section \<open>One report\<close>

lemma failed_returns:
  "\<not> asserts \<or> m_retry st \<noteq> - 1 \<Longrightarrow> \<exists>st'. DoReportDataFailed asserts st = Inr st'"
  by (auto simp: DoReportDataFailed_def Let_def NS_ASSERT_def one_le_incr_iff)

lemma failed_rate_cases:
  "DoReportDataFailed asserts st = Inr st' \<Longrightarrow>
     m_rate st' = m_rate st \<or> (m_rate st \<noteq> 0 \<and> m_rate st' = m_rate st - 1)"
  by (auto simp: DoReportDataFailed_def Let_def fallback_def split: if_splits)

lemma failed_counters:
  "DoReportDataFailed asserts st = Inr st' \<Longrightarrow>
     m_retry st' = m_retry st + 1 \<and> m_failed st' = m_failed st + 1 \<and> m_success st' = 0
     \<and> m_recovery st' = m_recovery st
     \<and> m_timerTimeout st' = m_timerTimeout st
     \<and> m_successThreshold st' = m_successThreshold st"
  by (auto simp: DoReportDataFailed_def Let_def fallback_def split: if_splits)

lemma ok_rate_cases:
  "m_rate (DoReportDataOk mgr nrates st) = m_rate st
   \<or> ((ucast (m_rate st) :: size_t) < nrates - 1
       \<and> m_rate (DoReportDataOk mgr nrates st) = m_rate st + 1)"
  by (simp add: DoReportDataOk_def Let_def)

lemma failed_rate_in_table:
  assumes "DoReportDataFailed asserts st = Inr st'" "unat (m_rate st) < unat nrates"
  shows "unat (m_rate st') < unat nrates"
  using failed_rate_cases [OF assms(1)] assms(2) unat_decr [of "m_rate st"] by auto

lemma ok_rate_in_table:
  fixes nrates :: size_t
  assumes "nrates \<noteq> 0" "unat (m_rate st) < unat nrates"
  shows "unat (m_rate (DoReportDataOk mgr nrates st)) < unat nrates"
proof -
  consider "m_rate (DoReportDataOk mgr nrates st) = m_rate st"
    | "(ucast (m_rate st) :: size_t) < nrates - 1"
      "m_rate (DoReportDataOk mgr nrates st) = m_rate st + 1"
    using ok_rate_cases by blast
  then show ?thesis
  proof cases
    case 1
    then show ?thesis using assms(2) by simp
  next
    case 2
    from 2(1) assms(1) have h: "unat (m_rate st) + 1 < unat nrates"
      by (simp add: rate_headroom_iff)
    have "unat (m_rate st + 1) \<le> unat (m_rate st) + 1"
      by (simp add: unat_word_ariths)
    with h 2(2) show ?thesis by simp
  qed
qed

section \<open>Sequences of reports: the rate stays in the table, and the run returns\<close>

lemma report_rate_in_table:
  assumes "nrates \<noteq> 0" "unat (m_rate st) < unat nrates"
    "report asserts mgr nrates e st = Inr st'"
  shows "unat (m_rate st') < unat nrates"
  using assms by (cases e) (auto intro: ok_rate_in_table failed_rate_in_table)

lemma reports_rate_in_table:
  assumes "nrates \<noteq> 0"
  shows "unat (m_rate st) < unat nrates \<Longrightarrow> reports asserts mgr nrates es st = Inr st'
    \<Longrightarrow> unat (m_rate st') < unat nrates"
proof (induction es arbitrary: st)
  case Nil
  then show ?case by simp
next
  case (Cons e es)
  then show ?case
    by (auto split: sum.splits dest: report_rate_in_table [OF assms])
qed

lemma reports_return:
  "\<not> asserts \<or> unat (m_retry st) + length es < 4294967296
    \<Longrightarrow> \<exists>st'. reports asserts mgr nrates es st = Inr st'"
proof (induction es arbitrary: st)
  case Nil
  then show ?case by simp
next
  case (Cons e es)
  show ?case
  proof (cases e)
    case DataOk
    have "m_retry (DoReportDataOk mgr nrates st) = 0"
      by (simp add: DoReportDataOk_def Let_def)
    with Cons.prems
    have "\<not> asserts \<or> unat (m_retry (DoReportDataOk mgr nrates st)) + length es < 4294967296"
      by auto
    from Cons.IH [OF this] DataOk show ?thesis by simp
  next
    case DataFailed
    from Cons.prems have nw: "\<not> asserts \<or> unat (m_retry st) + 1 < 4294967296" by auto
    have "\<not> asserts \<or> m_retry st \<noteq> - 1"
    proof (cases asserts)
      case True
      with nw have "unat (m_retry st) + 1 < 4294967296" by simp
      then show ?thesis using unat_max_u32 by auto
    qed simp
    from failed_returns [OF this]
    obtain st1 where st1: "DoReportDataFailed asserts st = Inr st1"
      by blast
    have "m_retry st1 = m_retry st + 1" using failed_counters [OF st1] by simp
    then have "asserts \<Longrightarrow> unat (m_retry st1) = unat (m_retry st) + 1"
      using nw by (simp add: unat_incr)
    with Cons.prems have "\<not> asserts \<or> unat (m_retry st1) + length es < 4294967296"
      by auto
    from Cons.IH [OF this] DataFailed st1 show ?thesis by simp
  qed
qed

lemma reports_append:
  "reports asserts mgr nrates (es @ fs) st =
     (case reports asserts mgr nrates es st of
        Inl err \<Rightarrow> Inl err
      | Inr st' \<Rightarrow> reports asserts mgr nrates fs st')"
  by (induction es arbitrary: st) (auto split: sum.splits)

section \<open>Further facts about one report and about runs of successes\<close>

lemma even_unat_word: "even (unat (w :: 'a::len word)) = even w"
proof -
  have "odd (unat w) = odd w"
    by (simp flip: bit_0 add: bit_unsigned_iff)
  then show ?thesis by simp
qed

lemma word_odd_pred_iff: "(((r :: u32) + 1 - 1) mod 2 = 1) = even (unat (r + 1))"
proof -
  have "((r mod 2) = 1) = odd r" by (simp add: odd_iff_mod_2_eq_one)
  moreover have "even (unat (r + 1)) = even (r + 1)" by (rule even_unat_word)
  ultimately show ?thesis by simp
qed

lemma two_le_incr_iff: "(2 \<le> (r :: u32) + 1) = (r \<noteq> 0 \<and> r \<noteq> - 1)"
proof (cases "r = - 1")
  case True
  then show ?thesis by simp
next
  case False
  then have "unat (r + 1) = unat r + 1" by (rule unat_incr_no_wrap)
  then show ?thesis using False unat_gt_0 [of r] by (auto simp: word_le_nat_alt)
qed

lemma normal_failed:
  assumes "\<not> m_recovery st" "DoReportDataFailed asserts st = Inr st'"
  shows "m_rate st' = (if even (unat (m_retry st + 1)) \<and> m_rate st \<noteq> 0
                       then m_rate st - 1 else m_rate st)"
    and "m_timer st' = (if 2 \<le> m_retry st + 1 then 0 else m_timer st + 1)"
    and "m_retry st' = m_retry st + 1"
  using assms
  by (auto simp: DoReportDataFailed_def Let_def fallback_def
      simp flip: word_odd_pred_iff split: if_splits)

lemma ok_fields:
  "m_rate (DoReportDataOk mgr nrates st)
     = (if (m_success st + 1 = manager.m_successThreshold mgr
            \<or> m_timer st + 1 = manager.m_timerThreshold mgr)
           \<and> (ucast (m_rate st) :: size_t) < nrates - 1
        then m_rate st + 1 else m_rate st)"
  "m_success (DoReportDataOk mgr nrates st)
     = (if (m_success st + 1 = manager.m_successThreshold mgr
            \<or> m_timer st + 1 = manager.m_timerThreshold mgr)
           \<and> (ucast (m_rate st) :: size_t) < nrates - 1
        then 0 else m_success st + 1)"
  "m_timer (DoReportDataOk mgr nrates st)
     = (if (m_success st + 1 = manager.m_successThreshold mgr
            \<or> m_timer st + 1 = manager.m_timerThreshold mgr)
           \<and> (ucast (m_rate st) :: size_t) < nrates - 1
        then 0 else m_timer st + 1)"
  "m_recovery (DoReportDataOk mgr nrates st)
     = ((m_success st + 1 = manager.m_successThreshold mgr
          \<or> m_timer st + 1 = manager.m_timerThreshold mgr)
        \<and> (ucast (m_rate st) :: size_t) < nrates - 1)"
  "m_retry (DoReportDataOk mgr nrates st) = 0"
  "m_failed (DoReportDataOk mgr nrates st) = 0"
  "m_successThreshold (DoReportDataOk mgr nrates st) = m_successThreshold st"
  "m_timerTimeout (DoReportDataOk mgr nrates st) = m_timerTimeout st"
  by (simp_all add: DoReportDataOk_def Let_def)

lemma replicate_snoc: "replicate (Suc k) x = replicate k x @ [x]"
  by (simp add: replicate_append_same)

lemma oks_quiet:
  assumes "\<forall>j. 1 \<le> j \<and> j \<le> k \<longrightarrow>
             m_success st + of_nat j \<noteq> manager.m_successThreshold mgr
             \<and> m_timer st + of_nat j \<noteq> manager.m_timerThreshold mgr"
  shows "\<exists>s. reports asserts mgr nrates (replicate k DataOk) st = Inr s
           \<and> m_rate s = m_rate st
           \<and> m_success s = m_success st + of_nat k
           \<and> m_timer s = m_timer st + of_nat k"
  using assms
proof (induction k)
  case 0
  then show ?case by simp
next
  case (Suc k)
  from Suc.prems have "\<forall>j. 1 \<le> j \<and> j \<le> k \<longrightarrow>
             m_success st + of_nat j \<noteq> manager.m_successThreshold mgr
             \<and> m_timer st + of_nat j \<noteq> manager.m_timerThreshold mgr" by simp
  from Suc.IH [OF this] obtain s where
    s: "reports asserts mgr nrates (replicate k DataOk) st = Inr s"
    and f: "m_rate s = m_rate st" "m_success s = m_success st + of_nat k"
      "m_timer s = m_timer st + of_nat k"
    by blast
  have e: "m_success s + 1 = m_success st + of_nat (Suc k)"
    "m_timer s + 1 = m_timer st + of_nat (Suc k)"
    using f by (simp_all add: add.assoc)
  have "1 \<le> Suc k \<and> Suc k \<le> Suc k" by simp
  with Suc.prems have "m_success st + of_nat (Suc k) \<noteq> manager.m_successThreshold mgr
    \<and> m_timer st + of_nat (Suc k) \<noteq> manager.m_timerThreshold mgr" by blast
  then have q: "m_success s + 1 \<noteq> manager.m_successThreshold mgr"
    "m_timer s + 1 \<noteq> manager.m_timerThreshold mgr"
    using e by metis+
  have run: "reports asserts mgr nrates (replicate (Suc k) DataOk) st
               = Inr (DoReportDataOk mgr nrates s)"
    unfolding replicate_snoc reports_append using s by simp
  from q have "m_rate (DoReportDataOk mgr nrates s) = m_rate s"
    "m_success (DoReportDataOk mgr nrates s) = m_success s + 1"
    "m_timer (DoReportDataOk mgr nrates s) = m_timer s + 1"
    by (simp_all add: ok_fields)
  then have "m_rate (DoReportDataOk mgr nrates s) = m_rate st"
    "m_success (DoReportDataOk mgr nrates s) = m_success st + of_nat (Suc k)"
    "m_timer (DoReportDataOk mgr nrates s) = m_timer st + of_nat (Suc k)"
    using e f by metis+
  with run show ?case by blast
qed

lemma unat_add_of_nat:
  fixes t :: u32
  assumes "unat t + j < 4294967296"
  shows "unat (t + of_nat j) = unat t + j"
  using assms by (simp add: unat_word_ariths unat_of_nat)

lemma ok_fires:
  assumes "m_success st + 1 = manager.m_successThreshold mgr
           \<or> m_timer st + 1 = manager.m_timerThreshold mgr"
    and "unat (m_rate st) + 1 < unat nrates"
  shows "m_rate (DoReportDataOk mgr nrates st) = m_rate st + 1"
    and "m_success (DoReportDataOk mgr nrates st) = 0"
    and "m_timer (DoReportDataOk mgr nrates st) = 0"
    and "m_recovery (DoReportDataOk mgr nrates st)"
proof -
  from assms(2) have "nrates \<noteq> 0" by (auto simp: unat_gt_0 [symmetric])
  with assms(2) have "(ucast (m_rate st) :: size_t) < nrates - 1"
    by (simp add: rate_headroom_iff)
  with assms(1) show "m_rate (DoReportDataOk mgr nrates st) = m_rate st + 1"
    and "m_success (DoReportDataOk mgr nrates st) = 0"
    and "m_timer (DoReportDataOk mgr nrates st) = 0"
    and "m_recovery (DoReportDataOk mgr nrates st)"
    by (simp_all add: ok_fields)
qed

lemma recovery_failed:
  assumes "m_recovery st" "DoReportDataFailed asserts st = Inr st'"
  shows "m_rate st' = (if m_retry st = 0 \<and> m_rate st \<noteq> 0 then m_rate st - 1 else m_rate st)"
    and "m_timer st' = 0"
  using assms
  by (auto simp: DoReportDataFailed_def Let_def fallback_def split: if_splits)

lemma failures_keep_recovery:
  "m_recovery st \<Longrightarrow> k \<noteq> 0
    \<Longrightarrow> reports asserts mgr nrates (replicate k DataFailed) st = Inr st'
    \<Longrightarrow> m_recovery st' \<and> m_timer st' = 0"
proof (induction k arbitrary: st')
  case 0
  then show ?case by simp
next
  case (Suc k)
  from Suc.prems(3) obtain s where s: "reports asserts mgr nrates (replicate k DataFailed) st = Inr s"
    and last: "DoReportDataFailed asserts s = Inr st'"
    unfolding replicate_snoc reports_append by (auto split: sum.splits)
  have "m_recovery s"
  proof (cases "k = 0")
    case True
    with s Suc.prems(1) show ?thesis by simp
  next
    case False
    from Suc.IH [OF Suc.prems(1) False s] show ?thesis by simp
  qed
  with last recovery_failed(2) [of s asserts st'] failed_counters [of asserts s st']
  show ?case by simp
qed

lemma reports_keep_thresholds:
  "reports asserts mgr nrates es st = Inr st'
    \<Longrightarrow> m_successThreshold st' = m_successThreshold st \<and> m_timerTimeout st' = m_timerTimeout st"
proof (induction es arbitrary: st)
  case Nil
  then show ?case by simp
next
  case (Cons e es)
  then obtain s where s: "report asserts mgr nrates e st = Inr s"
    and rest: "reports asserts mgr nrates es s = Inr st'"
    by (auto split: sum.splits)
  have "m_successThreshold s = m_successThreshold st \<and> m_timerTimeout s = m_timerTimeout st"
  proof (cases e)
    case DataOk
    with s show ?thesis by (auto simp: ok_fields)
  next
    case DataFailed
    with s failed_counters [of asserts st s] show ?thesis by simp
  qed
  with Cons.IH [OF rest] show ?case by simp
qed

lemma climb:
  assumes "m_success st = 0" "m_timer st = 0" "unat (m_rate st) + 1 < unat nrates"
  shows "\<exists>p st'. reports asserts mgr nrates (replicate p DataOk) st = Inr st'
           \<and> m_rate st' = m_rate st + 1 \<and> m_success st' = 0 \<and> m_timer st' = 0"
proof -
  define due where "due p \<longleftrightarrow> 1 \<le> p
      \<and> ((of_nat p :: u32) = manager.m_successThreshold mgr
         \<or> (of_nat p :: u32) = manager.m_timerThreshold mgr)" for p :: nat
  have "due (if manager.m_successThreshold mgr = 0 then 4294967296
             else unat (manager.m_successThreshold mgr))"
    by (auto simp: due_def unat_gt_0 Suc_le_eq)
  then have ex: "\<exists>p. due p" by blast
  define p where "p = (LEAST p. due p)"
  from ex have dp: "due p" unfolding p_def by (auto intro: LeastI)
  have below: "\<not> due j" if "j < p" for j
    using that unfolding p_def by (rule not_less_Least)
  from dp obtain k where k: "p = Suc k" by (cases p) (auto simp: due_def)
  have "\<forall>j. 1 \<le> j \<and> j \<le> k \<longrightarrow>
             m_success st + of_nat j \<noteq> manager.m_successThreshold mgr
             \<and> m_timer st + of_nat j \<noteq> manager.m_timerThreshold mgr"
  proof (intro allI impI)
    fix j
    assume j: "1 \<le> j \<and> j \<le> k"
    with k have "j < p" by simp
    from below [OF this] j assms(1,2)
    show "m_success st + of_nat j \<noteq> manager.m_successThreshold mgr
             \<and> m_timer st + of_nat j \<noteq> manager.m_timerThreshold mgr"
      by (simp add: due_def)
  qed
  from oks_quiet [OF this] obtain s where
    s: "reports asserts mgr nrates (replicate k DataOk) st = Inr s"
    and f: "m_rate s = m_rate st" "m_success s = m_success st + of_nat k"
      "m_timer s = m_timer st + of_nat k"
    by blast
  have run: "reports asserts mgr nrates (replicate p DataOk) st
               = Inr (DoReportDataOk mgr nrates s)"
    unfolding k replicate_snoc reports_append using s by simp
  from f assms(1,2) have "m_success s + 1 = of_nat p" "m_timer s + 1 = of_nat p"
    by (simp_all add: k)
  with dp have trig: "m_success s + 1 = manager.m_successThreshold mgr
           \<or> m_timer s + 1 = manager.m_timerThreshold mgr"
    by (auto simp: due_def)
  from assms(3) f have room: "unat (m_rate s) + 1 < unat nrates" by simp
  from ok_fires [OF trig room] f run show ?thesis by auto
qed

lemma reach_rate:
  "n < unat nrates \<Longrightarrow> n < 4294967296
    \<Longrightarrow> \<exists>es st. reports asserts mgr nrates es (DoCreateStation mgr) = Inr st
          \<and> unat (m_rate st) = n \<and> m_success st = 0 \<and> m_timer st = 0"
proof (induction n)
  case 0
  have "reports asserts mgr nrates [] (DoCreateStation mgr) = Inr (DoCreateStation mgr)"
    by simp
  moreover have "unat (m_rate (DoCreateStation mgr)) = 0
      \<and> m_success (DoCreateStation mgr) = 0 \<and> m_timer (DoCreateStation mgr) = 0"
    by (simp add: DoCreateStation_def)
  ultimately show ?case by blast
next
  case (Suc n)
  then obtain es st where
    run: "reports asserts mgr nrates es (DoCreateStation mgr) = Inr st"
    and st: "unat (m_rate st) = n" "m_success st = 0" "m_timer st = 0"
    by auto
  from st(1) Suc.prems(1) have "unat (m_rate st) + 1 < unat nrates" by simp
  from climb [OF st(2,3) this, of asserts mgr] obtain p st' where
    up: "reports asserts mgr nrates (replicate p DataOk) st = Inr st'"
    and st': "m_rate st' = m_rate st + 1" "m_success st' = 0" "m_timer st' = 0"
    by blast
  from st(1) Suc.prems(2) have "unat (m_rate st) + 1 < 4294967296" by simp
  then have "unat (m_rate st + 1) = unat (m_rate st) + 1" by (rule unat_incr)
  with st' st(1) have "unat (m_rate st') = Suc n" by simp
  moreover have "reports asserts mgr nrates (es @ replicate p DataOk) (DoCreateStation mgr)
      = Inr st'"
    unfolding reports_append using run up by simp
  ultimately show ?case using st'(2,3) by blast
qed

section \<open>The example stations are reachable\<close>

lemma probing_station_reachable:
  "reports True default_manager 4 (replicate 30 DataOk) (DoCreateStation default_manager)
     = Inr probing_station"
  by code_simp

lemma steady_station_reachable:
  "reports True default_manager 4 (replicate 23 DataOk) (DoCreateStation default_manager)
     = Inr steady_station"
  by code_simp

lemma overdue_station_reachable:
  "reports True default_manager 4
     (replicate 9 DataOk @ [DataFailed] @ replicate 4 DataOk @ [DataFailed])
     (DoCreateStation default_manager)
     = Inr overdue_station"
  by code_simp

section \<open>Properties\<close>

subsection \<open>The setters for HT, VHT and HE rates\<close>

text \<open>
  Claim C7. Each of \<open>SetHtSupported\<close>, \<open>SetVhtSupported\<close> and \<open>SetHeSupported\<close> ends in the
  fatal error when called with \<open>True\<close>, and returns with the manager unchanged and no error
  when called with \<open>False\<close>.
\<close>

theorem high_throughput_setters:
  "SetHtSupported mgr True =
     Inl (FatalError ''WifiRemoteStationManager selected does not support HT rates'')
   \<and> SetVhtSupported mgr True =
     Inl (FatalError ''WifiRemoteStationManager selected does not support VHT rates'')
   \<and> SetHeSupported mgr True =
     Inl (FatalError ''WifiRemoteStationManager selected does not support HE rates'')
   \<and> SetHtSupported mgr False = Inr mgr
   \<and> SetVhtSupported mgr False = Inr mgr
   \<and> SetHeSupported mgr False = Inr mgr"
  by (simp add: SetHtSupported_def SetVhtSupported_def SetHeSupported_def)

subsection \<open>The rate index stays inside the rate table\<close>

text \<open>
  Claim C1. Take a rate table with at least one entry (\<open>nrates \<noteq> 0\<close>), a station made by
  \<open>DoCreateStation\<close> and any finite sequence of \<open>DoReportDataOk\<close> and \<open>DoReportDataFailed\<close>
  calls on it. Every state the sequence reaches has \<open>0 \<le> m_rate < nrates\<close>. The sequence
  does reach a state: without assertions always, and with assertions whenever it is shorter
  than \<open>2 ^ 32\<close> reports (only a wrapped \<open>m_retry\<close> can fail \<open>NS_ASSERT\<close>).
\<close>

theorem rate_index_invariant:
  assumes "nrates \<noteq> 0"
  shows "(\<forall>st. reports asserts mgr nrates es (DoCreateStation mgr) = Inr st
            \<longrightarrow> 0 \<le> unat (m_rate st) \<and> unat (m_rate st) < unat nrates)
       \<and> (\<not> asserts \<or> length es < 4294967296
            \<longrightarrow> (\<exists>st. reports asserts mgr nrates es (DoCreateStation mgr) = Inr st))"
proof (intro conjI allI impI)
  fix st
  assume run: "reports asserts mgr nrates es (DoCreateStation mgr) = Inr st"
  from assms have "unat (m_rate (DoCreateStation mgr)) < unat nrates"
    by (simp add: DoCreateStation_def unat_gt_0)
  from reports_rate_in_table [OF assms this run]
  show "unat (m_rate st) < unat nrates" .
next
  assume "\<not> asserts \<or> length es < 4294967296"
  then have "\<not> asserts \<or> unat (m_retry (DoCreateStation mgr)) + length es < 4294967296"
    by (simp add: DoCreateStation_def)
  then show "\<exists>st. reports asserts mgr nrates es (DoCreateStation mgr) = Inr st"
    by (rule reports_return)
qed simp

theorem rate_index_invariant_witness:
  "(4 :: size_t) \<noteq> 0
   \<and> (\<exists>st. reports True default_manager 4 [DataOk, DataFailed, DataFailed]
              (DoCreateStation default_manager) = Inr st
          \<and> unat (m_rate st) < unat (4 :: size_t))"
proof -
  have n: "(4 :: size_t) \<noteq> 0" by simp
  have l: "\<not> True \<or> length [DataOk, DataFailed, DataFailed] < (4294967296 :: nat)" by simp
  from rate_index_invariant [OF n, of True default_manager "[DataOk, DataFailed, DataFailed]"] l n
  show ?thesis by blast
qed

subsection \<open>One report moves the rate by one step at most\<close>

text \<open>
  Claim C10. After one call of \<open>DoReportDataFailed\<close> the rate is the old rate or the old rate
  minus one; after one call of \<open>DoReportDataOk\<close> it is the old rate or the old rate plus one.
  This holds for the 32-bit values and, read as numbers, for the decrement always and for
  the increment on every rate table whose size is between 1 and \<open>2 ^ 32\<close>, the sizes for
  which the guarded \<open>m_rate++\<close> cannot wrap.
\<close>

theorem report_moves_rate_by_at_most_one:
  "(DoReportDataFailed asserts st = Inr st' \<longrightarrow>
      (m_rate st' = m_rate st \<or> m_rate st' = m_rate st - 1)
      \<and> (unat (m_rate st') = unat (m_rate st) \<or> unat (m_rate st') + 1 = unat (m_rate st)))
   \<and> (m_rate (DoReportDataOk mgr nrates st) = m_rate st
       \<or> m_rate (DoReportDataOk mgr nrates st) = m_rate st + 1)
   \<and> (nrates \<noteq> 0 \<and> unat nrates \<le> 4294967296 \<longrightarrow>
        unat (m_rate (DoReportDataOk mgr nrates st)) = unat (m_rate st)
        \<or> unat (m_rate (DoReportDataOk mgr nrates st)) = unat (m_rate st) + 1)"
proof (intro conjI impI)
  assume f: "DoReportDataFailed asserts st = Inr st'"
  from failed_rate_cases [OF f]
  show "m_rate st' = m_rate st \<or> m_rate st' = m_rate st - 1" by blast
  from failed_rate_cases [OF f] unat_decr [of "m_rate st"]
  show "unat (m_rate st') = unat (m_rate st) \<or> unat (m_rate st') + 1 = unat (m_rate st)"
    by auto
next
  show "m_rate (DoReportDataOk mgr nrates st) = m_rate st
       \<or> m_rate (DoReportDataOk mgr nrates st) = m_rate st + 1"
    using ok_rate_cases [of mgr nrates st] by blast
next
  assume n: "nrates \<noteq> 0 \<and> unat nrates \<le> 4294967296"
  consider "m_rate (DoReportDataOk mgr nrates st) = m_rate st"
    | "(ucast (m_rate st) :: size_t) < nrates - 1"
      "m_rate (DoReportDataOk mgr nrates st) = m_rate st + 1"
    using ok_rate_cases by blast
  then show "unat (m_rate (DoReportDataOk mgr nrates st)) = unat (m_rate st)
        \<or> unat (m_rate (DoReportDataOk mgr nrates st)) = unat (m_rate st) + 1"
  proof cases
    case 1
    then show ?thesis by simp
  next
    case 2
    from 2(1) n have "unat (m_rate st) + 1 < unat nrates"
      by (simp add: rate_headroom_iff)
    with n have "unat (m_rate st) + 1 < 4294967296" by simp
    then show ?thesis using 2(2) by (simp add: unat_incr)
  qed
qed

theorem report_moves_rate_by_at_most_one_witness:
  "DoReportDataFailed True probing_station = Inr fallen_back_station
   \<and> (4 :: size_t) \<noteq> 0 \<and> unat (4 :: size_t) \<le> 4294967296
   \<and> (unat (m_rate (DoReportDataOk default_manager 4 probing_station))
         = unat (m_rate probing_station)
     \<or> unat (m_rate (DoReportDataOk default_manager 4 probing_station))
         = unat (m_rate probing_station) + 1)
   \<and> (unat (m_rate fallen_back_station) = unat (m_rate probing_station)
     \<or> unat (m_rate fallen_back_station) + 1 = unat (m_rate probing_station))"
proof -
  have f: "DoReportDataFailed True probing_station = Inr fallen_back_station"
    by (simp add: probing_station_def fallen_back_station_def DoReportDataFailed_def
        NS_ASSERT_def fallback_def)
  have n: "(4 :: size_t) \<noteq> 0 \<and> unat (4 :: size_t) \<le> 4294967296" by simp
  from report_moves_rate_by_at_most_one [of True probing_station fallen_back_station
      default_manager 4] f n
  show ?thesis by blast
qed

subsection \<open>A failure right after a rate increase\<close>

text \<open>
  Claim C3, as amended. For a station in recovery (\<open>m_recovery\<close> set, \<open>m_retry = 0\<close>) with
  \<open>m_rate > 0\<close>, one call of \<open>DoReportDataFailed\<close> lowers \<open>m_rate\<close> by exactly one and
  resets \<open>m_timer\<close> to 0. The call leaves \<open>m_recovery\<close> set: the source never writes
  \<open>m_recovery\<close> in \<open>DoReportDataFailed\<close>, and its comment says that recovery ends at the
  first successful transmission.
\<close>

theorem recovery_failure_falls_back_at_once:
  assumes "m_recovery st" "m_retry st = 0" "m_rate st \<noteq> 0"
  shows "\<exists>st'. DoReportDataFailed asserts st = Inr st'
           \<and> m_rate st' = m_rate st - 1
           \<and> unat (m_rate st') + 1 = unat (m_rate st)
           \<and> m_timer st' = 0
           \<and> m_retry st' = 1
           \<and> m_recovery st'"
  using assms unat_decr [of "m_rate st"]
  by (simp add: DoReportDataFailed_def Let_def NS_ASSERT_def fallback_def)

theorem recovery_failure_falls_back_at_once_witness:
  "m_recovery probing_station \<and> m_retry probing_station = 0 \<and> m_rate probing_station \<noteq> 0
   \<and> (\<exists>st'. DoReportDataFailed True probing_station = Inr st'
           \<and> m_rate st' = 2 \<and> m_timer st' = 0 \<and> m_recovery st')"
proof -
  have h: "m_recovery probing_station" "m_retry probing_station = 0" "m_rate probing_station \<noteq> 0"
    by (simp_all add: probing_station_def)
  have "m_rate probing_station - 1 = 2" by (simp add: probing_station_def)
  with recovery_failure_falls_back_at_once [OF h, of True] h show ?thesis by auto
qed

text \<open>
  Claim C3 as stated fails on its last part: \<open>probing_station\<close> is in recovery with
  \<open>m_retry = 0\<close> and rate 3; the failure report brings it to rate 2 with \<open>m_timer = 0\<close>,
  and the recovery flag of the result is still set.
\<close>

theorem recovery_failure_clears_flag_counterexample:
  "m_recovery probing_station \<and> m_retry probing_station = 0 \<and> m_rate probing_station = 3
   \<and> DoReportDataFailed True probing_station = Inr fallen_back_station
   \<and> DoReportDataFailed False probing_station = Inr fallen_back_station
   \<and> m_rate fallen_back_station = 2
   \<and> m_timer fallen_back_station = 0
   \<and> m_recovery fallen_back_station \<noteq> False"
  by (simp add: probing_station_def fallen_back_station_def DoReportDataFailed_def
      NS_ASSERT_def fallback_def)

subsection \<open>Failures outside recovery\<close>

text \<open>
  Claim C4. A station outside recovery with \<open>m_retry = 0\<close> and rate 2 keeps rate 2 after one
  \<open>DoReportDataFailed\<close>; a second one in a row (\<open>m_retry\<close> becomes 2) brings the rate to 1
  and resets \<open>m_timer\<close> to 0. In general, a failure report outside recovery lowers the rate
  by one exactly when the incremented \<open>m_retry\<close> is even and the rate is above 0, and leaves
  the rate alone otherwise; unless \<open>m_retry\<close> wrapped around, an even \<open>m_retry\<close> is one of
  2, 4, 6, ...
\<close>

theorem normal_mode_fallback_every_second_failure:
  "(\<not> m_recovery st \<and> m_retry st = 0 \<and> m_rate st = 2 \<longrightarrow>
      (\<exists>st1 st2. DoReportDataFailed asserts st = Inr st1 \<and> m_rate st1 = 2
          \<and> DoReportDataFailed asserts st1 = Inr st2 \<and> m_retry st2 = 2
          \<and> m_rate st2 = 1 \<and> m_timer st2 = 0))
   \<and> (\<not> m_recovery st \<and> DoReportDataFailed asserts st = Inr st' \<longrightarrow>
        m_rate st' = (if even (unat (m_retry st')) \<and> m_rate st \<noteq> 0
                      then m_rate st - 1 else m_rate st)
        \<and> (even (unat (m_retry st')) \<and> m_retry st \<noteq> - 1 \<longrightarrow> 2 \<le> unat (m_retry st')))"
proof (intro conjI impI)
  assume h: "\<not> m_recovery st \<and> m_retry st = 0 \<and> m_rate st = 2"
  then have "\<not> asserts \<or> m_retry st \<noteq> - 1" by simp
  from failed_returns [OF this] obtain st1 where st1: "DoReportDataFailed asserts st = Inr st1"
    by blast
  from h have nr: "\<not> m_recovery st" by simp
  from normal_failed [OF nr st1] h failed_counters [OF st1]
  have f1: "m_rate st1 = 2" "m_retry st1 = 1" "\<not> m_recovery st1" by simp_all
  then have "\<not> asserts \<or> m_retry st1 \<noteq> - 1" by simp
  from failed_returns [OF this] obtain st2 where st2: "DoReportDataFailed asserts st1 = Inr st2"
    by blast
  from normal_failed [OF f1(3) st2] f1
  have "m_retry st2 = 2" "m_rate st2 = 1" "m_timer st2 = 0" by simp_all
  with st1 st2 f1 show "\<exists>st1 st2. DoReportDataFailed asserts st = Inr st1 \<and> m_rate st1 = 2
          \<and> DoReportDataFailed asserts st1 = Inr st2 \<and> m_retry st2 = 2
          \<and> m_rate st2 = 1 \<and> m_timer st2 = 0" by blast
next
  assume h: "\<not> m_recovery st \<and> DoReportDataFailed asserts st = Inr st'"
  then have nr: "\<not> m_recovery st" and f: "DoReportDataFailed asserts st = Inr st'" by simp_all
  from normal_failed [OF nr f]
  show "m_rate st' = (if even (unat (m_retry st')) \<and> m_rate st \<noteq> 0
                      then m_rate st - 1 else m_rate st)" by simp
next
  assume h: "\<not> m_recovery st \<and> DoReportDataFailed asserts st = Inr st'"
    and e: "even (unat (m_retry st')) \<and> m_retry st \<noteq> - 1"
  from h have r: "m_retry st' = m_retry st + 1" using failed_counters by blast
  with e have "unat (m_retry st') = unat (m_retry st) + 1" by (simp add: unat_incr_no_wrap)
  with e show "2 \<le> unat (m_retry st')" by (cases "unat (m_retry st)") auto
qed

theorem normal_mode_fallback_every_second_failure_witness:
  "\<not> m_recovery steady_station \<and> m_retry steady_station = 0 \<and> m_rate steady_station = 2
   \<and> DoReportDataFailed True steady_station = Inr once_failed_station
   \<and> (\<exists>st1 st2. DoReportDataFailed True steady_station = Inr st1 \<and> m_rate st1 = 2
          \<and> DoReportDataFailed True st1 = Inr st2 \<and> m_retry st2 = 2
          \<and> m_rate st2 = 1 \<and> m_timer st2 = 0)
   \<and> m_rate once_failed_station
       = (if even (unat (m_retry once_failed_station)) \<and> m_rate steady_station \<noteq> 0
          then m_rate steady_station - 1 else m_rate steady_station)"
proof -
  have h: "\<not> m_recovery steady_station \<and> m_retry steady_station = 0
      \<and> m_rate steady_station = 2"
    by (simp add: steady_station_def)
  have f: "DoReportDataFailed True steady_station = Inr once_failed_station"
    by (simp add: steady_station_def once_failed_station_def DoReportDataFailed_def
        NS_ASSERT_def fallback_def word_le_nat_alt)
  from normal_mode_fallback_every_second_failure [of steady_station True
      once_failed_station] h f
  show ?thesis by blast
qed

subsection \<open>Ten successes in a row\<close>

text \<open>
  Claim C2, as amended. Take a station outside recovery with \<open>m_success = 0\<close>, a manager
  whose success threshold is 10, \<open>m_timer\<close> at most the timer threshold minus 10, and
  \<open>m_rate < nrates - 1\<close>. Ten \<open>DoReportDataOk\<close> calls in a row raise \<open>m_rate\<close> by one, on
  the tenth call and not before (after fewer than ten calls the rate is the old one), and
  leave \<open>m_success = 0\<close>, \<open>m_timer = 0\<close> and \<open>m_recovery\<close> set. The threshold is the
  manager's \<^verbatim>\<open>m_successThreshold\<close>, which is the one the source compares with.
\<close>

theorem ten_successes_raise_rate_once:
  assumes "\<not> m_recovery st"
    and "manager.m_successThreshold mgr = 10"
    and "m_success st = 0"
    and "unat (m_timer st) + 10 \<le> unat (manager.m_timerThreshold mgr)"
    and "unat (m_rate st) + 1 < unat nrates"
  shows "(\<exists>st'. reports asserts mgr nrates (replicate 10 DataOk) st = Inr st'
            \<and> m_rate st' = m_rate st + 1
            \<and> m_success st' = 0 \<and> m_timer st' = 0 \<and> m_recovery st')
       \<and> (\<forall>k<10. \<exists>s. reports asserts mgr nrates (replicate k DataOk) st = Inr s
            \<and> m_rate s = m_rate st)"
proof -
  have quiet: "m_success st + of_nat j \<noteq> manager.m_successThreshold mgr
      \<and> m_timer st + of_nat j \<noteq> manager.m_timerThreshold mgr" if "j \<le> 9" for j
  proof
    from that have "unat (of_nat j :: u32) = j" by (simp add: unat_of_nat)
    with that have "(of_nat j :: u32) \<noteq> 10" by auto
    with assms(2,3) show "m_success st + of_nat j \<noteq> manager.m_successThreshold mgr" by simp
    have "unat (manager.m_timerThreshold mgr) < 4294967296" by (rule unat_u32_bound)
    with that assms(4) have "unat (m_timer st) + j < 4294967296" by simp
    then have "unat (m_timer st + of_nat j) = unat (m_timer st) + j" by (rule unat_add_of_nat)
    with that assms(4) show "m_timer st + of_nat j \<noteq> manager.m_timerThreshold mgr" by auto
  qed
  have before: "\<exists>s. reports asserts mgr nrates (replicate k DataOk) st = Inr s
      \<and> m_rate s = m_rate st \<and> m_success s = m_success st + of_nat k
      \<and> m_timer s = m_timer st + of_nat k" if "k \<le> 9" for k
  proof (rule oks_quiet)
    from that quiet
    show "\<forall>j. 1 \<le> j \<and> j \<le> k \<longrightarrow>
             m_success st + of_nat j \<noteq> manager.m_successThreshold mgr
             \<and> m_timer st + of_nat j \<noteq> manager.m_timerThreshold mgr" by simp
  qed
  from before [of 9] obtain s where
    s: "reports asserts mgr nrates (replicate 9 DataOk) st = Inr s"
    and f: "m_rate s = m_rate st" "m_success s = m_success st + of_nat 9"
    by auto
  have ten: "replicate 10 DataOk = replicate 9 DataOk @ [DataOk]"
    using replicate_snoc [of 9 DataOk] by simp
  have run: "reports asserts mgr nrates (replicate 10 DataOk) st
               = Inr (DoReportDataOk mgr nrates s)"
    unfolding ten reports_append using s by simp
  from f assms(2,3) have "m_success s + 1 = manager.m_successThreshold mgr" by simp
  then have trig: "m_success s + 1 = manager.m_successThreshold mgr
           \<or> m_timer s + 1 = manager.m_timerThreshold mgr" by simp
  from assms(5) f have room: "unat (m_rate s) + 1 < unat nrates" by simp
  from ok_fires [OF trig room] f run
  have first: "\<exists>st'. reports asserts mgr nrates (replicate 10 DataOk) st = Inr st'
            \<and> m_rate st' = m_rate st + 1
            \<and> m_success st' = 0 \<and> m_timer st' = 0 \<and> m_recovery st'"
    by simp
  have second: "\<forall>k<10. \<exists>s. reports asserts mgr nrates (replicate k DataOk) st = Inr s
            \<and> m_rate s = m_rate st"
  proof (intro allI impI)
    fix k :: nat
    assume "k < 10"
    then have "k \<le> 9" by simp
    from before [OF this]
    show "\<exists>s. reports asserts mgr nrates (replicate k DataOk) st = Inr s \<and> m_rate s = m_rate st"
      by blast
  qed
  from first second show ?thesis by (intro conjI)
qed

theorem ten_successes_raise_rate_once_witness:
  "\<not> m_recovery (DoCreateStation default_manager)
   \<and> manager.m_successThreshold default_manager = 10
   \<and> m_success (DoCreateStation default_manager) = 0
   \<and> unat (m_timer (DoCreateStation default_manager)) + 10
       \<le> unat (manager.m_timerThreshold default_manager)
   \<and> unat (m_rate (DoCreateStation default_manager)) + 1 < unat (4 :: size_t)
   \<and> (\<exists>st'. reports True default_manager 4 (replicate 10 DataOk)
               (DoCreateStation default_manager) = Inr st'
            \<and> m_rate st' = 1 \<and> m_success st' = 0 \<and> m_timer st' = 0 \<and> m_recovery st')"
proof -
  have h: "\<not> m_recovery (DoCreateStation default_manager)"
    "manager.m_successThreshold default_manager = 10"
    "m_success (DoCreateStation default_manager) = 0"
    "unat (m_timer (DoCreateStation default_manager)) + 10
       \<le> unat (manager.m_timerThreshold default_manager)"
    "unat (m_rate (DoCreateStation default_manager)) + 1 < unat (4 :: size_t)"
    by (simp_all add: DoCreateStation_def default_manager_def)
  have "m_rate (DoCreateStation default_manager) + 1 = 1"
    by (simp add: DoCreateStation_def)
  with ten_successes_raise_rate_once [OF h, of True] h show ?thesis by simp
qed

text \<open>
  Claim C2 as stated leaves \<open>m_success\<close> open, and fails when it is not 0. After five
  successes a station of the default manager is outside recovery, has \<open>m_timer = 5\<close>, at
  most \<open>15 - 10\<close>, and rate 0 on a table of four rates. Of the next ten successes the
  fifth raises the rate, and after the tenth the station has \<open>m_success = 5\<close>,
  \<open>m_timer = 5\<close> and is outside recovery.
\<close>

theorem ten_successes_counterexample:
  "reports True default_manager 4 [DataOk, DataOk, DataOk, DataOk, DataOk]
     (DoCreateStation default_manager) = Inr five_successes_station
   \<and> \<not> m_recovery five_successes_station
   \<and> manager.m_successThreshold default_manager = 10
   \<and> m_successThreshold five_successes_station = 10
   \<and> unat (m_timer five_successes_station) + 10
       \<le> unat (manager.m_timerThreshold default_manager)
   \<and> unat (m_rate five_successes_station) + 1 < unat (4 :: size_t)
   \<and> reports True default_manager 4 [DataOk, DataOk, DataOk, DataOk, DataOk]
        five_successes_station
       = Inr \<lparr> m_timer = 0, m_success = 0, m_failed = 0, m_recovery = True, m_retry = 0,
               m_timerTimeout = 15, m_successThreshold = 10, m_rate = 1 \<rparr>
   \<and> reports True default_manager 4
        [DataOk, DataOk, DataOk, DataOk, DataOk, DataOk, DataOk, DataOk, DataOk, DataOk]
        five_successes_station
       = Inr fifteen_successes_station
   \<and> m_success fifteen_successes_station \<noteq> 0
   \<and> m_timer fifteen_successes_station \<noteq> 0
   \<and> \<not> m_recovery fifteen_successes_station"
  by (simp add: five_successes_station_def fifteen_successes_station_def DoCreateStation_def
      default_manager_def DoReportDataOk_def word_less_nat_alt)

subsection \<open>The top of the rate table\<close>

text \<open>
  Claim C5. The guard of the increase is \<open>m_rate < nrates - 1\<close>, so the last index of the
  table can be reached and cannot be passed. For a table of at least two rates there is a
  sequence of reports that takes a fresh station to \<open>m_rate = nrates - 1\<close>, whatever the
  thresholds of the manager are; and a station with \<open>m_rate = nrates - 1\<close> keeps its rate
  under \<open>DoReportDataOk\<close>. The table has at most \<open>2 ^ 32\<close> rates, since \<open>m_rate\<close> is a
  \<^verbatim>\<open>uint32_t\<close> and could not hold a larger last index.
\<close>

theorem top_rate_reachable_and_final:
  "(2 \<le> unat nrates \<and> unat nrates \<le> 4294967296
      \<longrightarrow> (\<exists>es top. reports asserts mgr nrates es (DoCreateStation mgr) = Inr top
              \<and> unat (m_rate top) + 1 = unat nrates))
   \<and> (unat (m_rate st) + 1 = unat nrates
      \<longrightarrow> m_rate (DoReportDataOk mgr nrates st) = m_rate st)"
proof -
  have p1: "2 \<le> unat nrates \<and> unat nrates \<le> 4294967296
      \<longrightarrow> (\<exists>es top. reports asserts mgr nrates es (DoCreateStation mgr) = Inr top
              \<and> unat (m_rate top) + 1 = unat nrates)"
  proof
    assume h: "2 \<le> unat nrates \<and> unat nrates \<le> 4294967296"
    then have "unat nrates - 1 < unat nrates" "unat nrates - 1 < 4294967296" by arith+
    from reach_rate [OF this, of asserts mgr] obtain es top where
      "reports asserts mgr nrates es (DoCreateStation mgr) = Inr top"
      "unat (m_rate top) = unat nrates - 1"
      by blast
    with h show "\<exists>es top. reports asserts mgr nrates es (DoCreateStation mgr) = Inr top
              \<and> unat (m_rate top) + 1 = unat nrates"
      by (intro exI [of _ es] exI [of _ top]) simp
  qed
  have p2: "unat (m_rate st) + 1 = unat nrates
      \<longrightarrow> m_rate (DoReportDataOk mgr nrates st) = m_rate st"
  proof
    assume t: "unat (m_rate st) + 1 = unat nrates"
    then have "nrates \<noteq> 0" by (auto simp: unat_gt_0 [symmetric])
    with t have "\<not> (ucast (m_rate st) :: size_t) < nrates - 1"
      by (simp add: rate_headroom_iff)
    then show "m_rate (DoReportDataOk mgr nrates st) = m_rate st"
      by (simp add: ok_fields)
  qed
  from p1 p2 show ?thesis by (intro conjI)
qed

theorem top_rate_reachable_and_final_witness:
  "2 \<le> unat (2 :: size_t) \<and> unat (2 :: size_t) \<le> 4294967296
   \<and> (\<exists>es top. reports True default_manager 2 es (DoCreateStation default_manager) = Inr top
          \<and> unat (m_rate top) + 1 = unat (2 :: size_t))
   \<and> unat (m_rate probing_station) + 1 = unat (4 :: size_t)
   \<and> m_rate (DoReportDataOk default_manager 4 probing_station) = m_rate probing_station"
proof -
  have h: "2 \<le> unat (2 :: size_t) \<and> unat (2 :: size_t) \<le> 4294967296" by simp
  have t: "unat (m_rate probing_station) + 1 = unat (4 :: size_t)"
    by (simp add: probing_station_def)
  from top_rate_reachable_and_final [where nrates = 2 and asserts = True
      and mgr = default_manager] h
  have a: "\<exists>es top. reports True default_manager 2 es (DoCreateStation default_manager) = Inr top
          \<and> unat (m_rate top) + 1 = unat (2 :: size_t)"
    by blast
  from top_rate_reachable_and_final [where nrates = 4 and st = probing_station
      and mgr = default_manager] t
  have b: "m_rate (DoReportDataOk default_manager 4 probing_station) = m_rate probing_station"
    by blast
  from h a t b show ?thesis by (intro conjI) simp_all
qed

subsection \<open>The thresholds a station carries\<close>

text \<open>
  Claim C6, as amended. \<open>DoCreateStation\<close> copies the manager's two thresholds into the
  station, and no report changes the copies: any sequence of reports, under any manager,
  returns a station with the copies it started with. The decision in \<open>DoReportDataOk\<close>
  does not read them.
  It compares with the thresholds of the manager at the time of the call, so it is the
  decision made with the station's copies whenever the manager still has the values it had
  at creation, and the outcome is the same whatever the copies hold.
\<close>

theorem thresholds_copied_but_manager_decides:
  "m_successThreshold (DoCreateStation creator) = manager.m_successThreshold creator
   \<and> m_timerTimeout (DoCreateStation creator) = manager.m_timerThreshold creator
   \<and> (reports asserts mgr nrates es st = Inr st'
        \<longrightarrow> m_successThreshold st' = m_successThreshold st
            \<and> m_timerTimeout st' = m_timerTimeout st)
   \<and> (manager.m_successThreshold mgr = m_successThreshold st
        \<and> manager.m_timerThreshold mgr = m_timerTimeout st
        \<longrightarrow> DoReportDataOk mgr nrates st = DoReportDataOk_station_thresholds nrates st)
   \<and> DoReportDataOk mgr nrates (st\<lparr>m_successThreshold := a, m_timerTimeout := b\<rparr>)
       = (DoReportDataOk mgr nrates st)\<lparr>m_successThreshold := a, m_timerTimeout := b\<rparr>"
proof -
  have p0: "m_successThreshold (DoCreateStation creator) = manager.m_successThreshold creator"
    "m_timerTimeout (DoCreateStation creator) = manager.m_timerThreshold creator"
    by (simp_all add: DoCreateStation_def)
  have p1: "reports asserts mgr nrates es st = Inr st'
        \<longrightarrow> m_successThreshold st' = m_successThreshold st
            \<and> m_timerTimeout st' = m_timerTimeout st"
    using reports_keep_thresholds by blast
  have p2: "manager.m_successThreshold mgr = m_successThreshold st
        \<and> manager.m_timerThreshold mgr = m_timerTimeout st
        \<longrightarrow> DoReportDataOk mgr nrates st = DoReportDataOk_station_thresholds nrates st"
    by (simp add: DoReportDataOk_def DoReportDataOk_station_thresholds_def Let_def)
  have p3: "DoReportDataOk mgr nrates (st\<lparr>m_successThreshold := a, m_timerTimeout := b\<rparr>)
       = (DoReportDataOk mgr nrates st)\<lparr>m_successThreshold := a, m_timerTimeout := b\<rparr>"
    by (simp add: DoReportDataOk_def Let_def)
  from p0 p1 p2 p3 show ?thesis by (intro conjI)
qed

theorem thresholds_copied_but_manager_decides_witness:
  "reports True reconfigured_manager 4 [DataOk, DataFailed] (DoCreateStation default_manager)
     = Inr \<lparr> m_timer = 0, m_success = 0, m_failed = 1, m_recovery = True, m_retry = 1,
             m_timerTimeout = 15, m_successThreshold = 10, m_rate = 0 \<rparr>
   \<and> m_successThreshold \<lparr> m_timer = 0, m_success = 0, m_failed = 1, m_recovery = True,
         m_retry = 1, m_timerTimeout = 15, m_successThreshold = 10, m_rate = 0 \<rparr>
       = m_successThreshold (DoCreateStation default_manager)
   \<and> manager.m_successThreshold default_manager = m_successThreshold steady_station
   \<and> manager.m_timerThreshold default_manager = m_timerTimeout steady_station
   \<and> DoReportDataOk default_manager 4 steady_station
       = DoReportDataOk_station_thresholds 4 steady_station"
proof -
  have run: "reports True reconfigured_manager 4 [DataOk, DataFailed]
      (DoCreateStation default_manager)
     = Inr \<lparr> m_timer = 0, m_success = 0, m_failed = 1, m_recovery = True, m_retry = 1,
             m_timerTimeout = 15, m_successThreshold = 10, m_rate = 0 \<rparr>"
    by code_simp
  have h: "manager.m_successThreshold default_manager = m_successThreshold steady_station"
    "manager.m_timerThreshold default_manager = m_timerTimeout steady_station"
    by (simp_all add: default_manager_def steady_station_def)
  from thresholds_copied_but_manager_decides [where asserts = True
      and mgr = reconfigured_manager and nrates = 4 and es = "[DataOk, DataFailed]"
      and st = "DoCreateStation default_manager"] run
  have a: "m_successThreshold \<lparr> m_timer = 0, m_success = 0, m_failed = 1, m_recovery = True,
         m_retry = 1, m_timerTimeout = 15, m_successThreshold = 10, m_rate = 0 \<rparr>
       = m_successThreshold (DoCreateStation default_manager)"
    by blast
  from thresholds_copied_but_manager_decides [where mgr = default_manager and nrates = 4
      and st = steady_station] h
  have b: "DoReportDataOk default_manager 4 steady_station
       = DoReportDataOk_station_thresholds 4 steady_station"
    by blast
  from run a h b show ?thesis by (intro conjI)
qed

text \<open>
  Claim C6 as stated says that a later change of the manager's thresholds does not affect
  a station that exists already. A station made by the default manager has the copies 10
  and 15. Its first success does not raise the rate under the default manager, nor when
  decided with the copies; once the manager's success threshold has been set to 1, the
  same report on the same station raises the rate to 1.
\<close>

theorem later_configuration_change_counterexample:
  "m_successThreshold (DoCreateStation default_manager) = 10
   \<and> m_timerTimeout (DoCreateStation default_manager) = 15
   \<and> m_rate (DoReportDataOk default_manager 4 (DoCreateStation default_manager)) = 0
   \<and> m_rate (DoReportDataOk reconfigured_manager 4 (DoCreateStation default_manager)) = 1
   \<and> m_rate (DoReportDataOk_station_thresholds 4 (DoCreateStation default_manager)) = 0
   \<and> DoReportDataOk reconfigured_manager 4 (DoCreateStation default_manager)
       \<noteq> DoReportDataOk_station_thresholds 4 (DoCreateStation default_manager)"
  by (simp add: DoCreateStation_def default_manager_def reconfigured_manager_def
      DoReportDataOk_def DoReportDataOk_station_thresholds_def word_less_nat_alt)

subsection \<open>The recovery flag under failures\<close>

text \<open>
  Claim C8. \<open>DoReportDataFailed\<close> never changes \<open>m_recovery\<close>. So a failure report on a
  station in recovery leaves it in recovery; every further failure of the streak (the
  incremented \<open>m_retry\<close> is 2 or more) leaves the rate alone and resets \<open>m_timer\<close> to 0, and
  after any number of failures in a row the station is still in recovery with
  \<open>m_timer = 0\<close>. A report that takes a station out of recovery is a \<open>DataOk\<close>; after
  \<open>DoReportDataOk\<close> the flag is set exactly when that call raised the rate. A failure
  report returns unless assertions are on and \<open>m_retry\<close> wraps around.
\<close>

theorem failure_never_clears_recovery:
  "(DoReportDataFailed asserts st = Inr st' \<longrightarrow> m_recovery st' = m_recovery st)
   \<and> (m_recovery st \<and> DoReportDataFailed asserts st = Inr st' \<and> 2 \<le> m_retry st'
        \<longrightarrow> m_rate st' = m_rate st \<and> m_timer st' = 0 \<and> m_recovery st')
   \<and> (m_recovery st \<and> k \<noteq> 0
        \<and> reports asserts mgr nrates (replicate k DataFailed) st = Inr st''
        \<longrightarrow> m_recovery st'' \<and> m_timer st'' = 0)
   \<and> (m_recovery st \<and> report asserts mgr nrates e st = Inr st' \<and> \<not> m_recovery st'
        \<longrightarrow> e = DataOk)
   \<and> (m_recovery (DoReportDataOk mgr nrates st)
        = (m_rate (DoReportDataOk mgr nrates st) \<noteq> m_rate st))
   \<and> (\<not> asserts \<or> m_retry st \<noteq> - 1 \<longrightarrow> (\<exists>s. DoReportDataFailed asserts st = Inr s))"
proof -
  have p1: "DoReportDataFailed asserts st = Inr st' \<longrightarrow> m_recovery st' = m_recovery st"
    using failed_counters by blast
  have p2: "m_recovery st \<and> DoReportDataFailed asserts st = Inr st' \<and> 2 \<le> m_retry st'
        \<longrightarrow> m_rate st' = m_rate st \<and> m_timer st' = 0 \<and> m_recovery st'"
  proof
    assume h: "m_recovery st \<and> DoReportDataFailed asserts st = Inr st' \<and> 2 \<le> m_retry st'"
    then have r: "m_retry st' = m_retry st + 1" using failed_counters by blast
    with h have "m_retry st \<noteq> 0" by (auto simp: two_le_incr_iff)
    with h recovery_failed [of st asserts st'] failed_counters [of asserts st st']
    show "m_rate st' = m_rate st \<and> m_timer st' = 0 \<and> m_recovery st'" by simp
  qed
  have p3: "m_recovery st \<and> k \<noteq> 0
        \<and> reports asserts mgr nrates (replicate k DataFailed) st = Inr st''
        \<longrightarrow> m_recovery st'' \<and> m_timer st'' = 0"
    using failures_keep_recovery by blast
  have p4: "m_recovery st \<and> report asserts mgr nrates e st = Inr st' \<and> \<not> m_recovery st'
        \<longrightarrow> e = DataOk"
  proof
    assume h: "m_recovery st \<and> report asserts mgr nrates e st = Inr st' \<and> \<not> m_recovery st'"
    show "e = DataOk"
    proof (cases e)
      case DataFailed
      with h failed_counters [of asserts st st'] show ?thesis by simp
    qed simp
  qed
  have p5: "m_recovery (DoReportDataOk mgr nrates st)
        = (m_rate (DoReportDataOk mgr nrates st) \<noteq> m_rate st)"
    by (simp add: ok_fields)
  have p6: "\<not> asserts \<or> m_retry st \<noteq> - 1 \<longrightarrow> (\<exists>s. DoReportDataFailed asserts st = Inr s)"
    using failed_returns by blast
  from p1 p2 p3 p4 p5 p6 show ?thesis by (intro conjI)
qed

theorem failure_never_clears_recovery_witness:
  "DoReportDataFailed True fallen_back_station = Inr twice_failed_station
   \<and> m_recovery fallen_back_station
   \<and> (2 :: u32) \<le> m_retry twice_failed_station
   \<and> m_rate twice_failed_station = m_rate fallen_back_station
   \<and> m_timer twice_failed_station = 0
   \<and> m_recovery twice_failed_station"
proof -
  have f: "DoReportDataFailed True fallen_back_station = Inr twice_failed_station"
    by (simp add: fallen_back_station_def twice_failed_station_def DoReportDataFailed_def
        NS_ASSERT_def fallback_def word_le_nat_alt)
  have r: "m_recovery fallen_back_station" "(2 :: u32) \<le> m_retry twice_failed_station"
    by (simp_all add: fallen_back_station_def twice_failed_station_def)
  from failure_never_clears_recovery [of True fallen_back_station twice_failed_station] f r
  show ?thesis by blast
qed

subsection \<open>The increase is tested with equality\<close>

text \<open>
  Claim C9. \<open>DoReportDataOk\<close> raises the rate exactly when the incremented \<open>m_success\<close>
  equals the success threshold or the incremented \<open>m_timer\<close> equals the timer threshold,
  and the rate is below the last index. In particular a call at which the incremented
  \<open>m_timer\<close> is above the timer threshold and the incremented \<open>m_success\<close> differs from
  the success threshold leaves the rate unchanged. Such a call is reachable:
  \<open>overdue_station\<close> is reached from a fresh station and its next success is one.
\<close>

theorem rate_increase_needs_exact_equality:
  "(m_rate (DoReportDataOk mgr nrates st) \<noteq> m_rate st)
     = ((m_success st + 1 = manager.m_successThreshold mgr
          \<or> m_timer st + 1 = manager.m_timerThreshold mgr)
        \<and> (ucast (m_rate st) :: size_t) < nrates - 1)
   \<and> (manager.m_timerThreshold mgr < m_timer st + 1
        \<and> m_success st + 1 \<noteq> manager.m_successThreshold mgr
        \<longrightarrow> m_rate (DoReportDataOk mgr nrates st) = m_rate st
            \<and> m_timer (DoReportDataOk mgr nrates st) = m_timer st + 1
            \<and> \<not> m_recovery (DoReportDataOk mgr nrates st))"
  by (auto simp: ok_fields)

theorem rate_increase_needs_exact_equality_witness:
  "reports True default_manager 4
     [DataOk, DataOk, DataOk, DataOk, DataOk, DataOk, DataOk, DataOk, DataOk, DataFailed,
      DataOk, DataOk, DataOk, DataOk, DataFailed]
     (DoCreateStation default_manager) = Inr overdue_station
   \<and> manager.m_timerThreshold default_manager < m_timer overdue_station + 1
   \<and> m_success overdue_station + 1 \<noteq> manager.m_successThreshold default_manager
   \<and> (ucast (m_rate overdue_station) :: size_t) < 4 - 1
   \<and> m_rate (DoReportDataOk default_manager 4 overdue_station) = m_rate overdue_station
   \<and> m_timer (DoReportDataOk default_manager 4 overdue_station) = 16"
proof -
  have run: "reports True default_manager 4
     [DataOk, DataOk, DataOk, DataOk, DataOk, DataOk, DataOk, DataOk, DataOk, DataFailed,
      DataOk, DataOk, DataOk, DataOk, DataFailed]
     (DoCreateStation default_manager) = Inr overdue_station"
    by code_simp
  have h: "manager.m_timerThreshold default_manager < m_timer overdue_station + 1"
    "m_success overdue_station + 1 \<noteq> manager.m_successThreshold default_manager"
    "(ucast (m_rate overdue_station) :: size_t) < 4 - 1"
    "m_timer overdue_station + 1 = 16"
    by (simp_all add: default_manager_def overdue_station_def word_less_nat_alt)
  from rate_increase_needs_exact_equality [of default_manager 4 overdue_station] run h
  show ?thesis by simp
qed


end
